theory Spec2Isabelle
  imports Complex_Main
begin

section \<open>Data model (types.ts)\<close>

text \<open>
  JavaScript numbers are modelled as \<open>real\<close>: rounding, \<open>NaN\<close> and the infinities of
  IEEE doubles are outside this development. An optional property (\<open>Partial<...>\<close>,
  \<open>color?\<close>, a nullable state variable) is an \<open>option\<close>, with \<open>None\<close> for
  \<open>undefined\<close>/\<open>null\<close>.
\<close>

datatype AnnotationSource = Gemini | HumanAdded | HumanEdited | GeminiAssisted

record BoundingBox =
  box_id :: string
  label :: string
  x_min :: real
  y_min :: real
  width :: real
  height :: real
  color :: "string option"
  source :: AnnotationSource

section \<open>Label colours (utils/colorUtils.ts)\<close>

text \<open>
  The module keeps a \<open>Map\<close> from label to colour and a counter. The palette
  \<open>BOUNDING_BOX_COLORS\<close> lives in \<open>constants.ts\<close>; it is a parameter \<open>pal\<close> here.
  Indexing an empty palette yields \<open>undefined\<close> in JavaScript, hence the \<open>option\<close>.
\<close>

record LabelColors =
  labelColorMap :: "string \<rightharpoonup> string option"
  colorIndex :: nat

definition palette_at :: "string list \<Rightarrow> nat \<Rightarrow> string option" where
  "palette_at pal i = (if pal = [] then None else Some (pal ! (i mod length pal)))"

definition getLabelColor :: "string list \<Rightarrow> LabelColors \<Rightarrow> string \<Rightarrow> string option \<times> LabelColors" where
  "getLabelColor pal st l =
     (let st' = (if labelColorMap st l = None
                 then \<lparr> labelColorMap = (labelColorMap st)(l \<mapsto> palette_at pal (colorIndex st)),
                        colorIndex = colorIndex st + 1 \<rparr>
                 else st)
      in (case labelColorMap st' l of None \<Rightarrow> None | Some c \<Rightarrow> c, st'))"

definition resetLabelColors :: "LabelColors \<Rightarrow> LabelColors" where
  "resetLabelColors st = \<lparr> labelColorMap = Map.empty, colorIndex = 0 \<rparr>"

definition initialLabelColors :: LabelColors where
  "initialLabelColors = \<lparr> labelColorMap = Map.empty, colorIndex = 0 \<rparr>"

text \<open>Calling \<open>getLabelColor\<close> for each label of a list in turn: the colours returned and the
  final module state.\<close>

fun colorsFor :: "string list \<Rightarrow> LabelColors \<Rightarrow> string list \<Rightarrow> string option list \<times> LabelColors" where
  "colorsFor pal st [] = ([], st)"
| "colorsFor pal st (l # ls) =
     (let (c, st1) = getLabelColor pal st l;
          (cs, st2) = colorsFor pal st1 ls
      in (c # cs, st2))"

section \<open>Editor state (components/InteractiveAnnotator.tsx)\<close>

datatype InteractionMode = Select | Draw | Resize | Move

datatype ResizeHandle = N | S | E | W | NW | NE | SW | SE

text \<open>\<open>InteractionState extends Partial<BoundingBox>\<close>: every property is optional.\<close>

record InteractionState =
  i_id :: "string option"
  i_label :: "string option"
  i_x_min :: "real option"
  i_y_min :: "real option"
  i_width :: "real option"
  i_height :: "real option"
  i_color :: "string option"
  i_source :: "AnnotationSource option"
  startX :: "real option"
  startY :: "real option"
  boxInitialX :: "real option"
  boxInitialY :: "real option"

definition emptyInteraction :: InteractionState where
  "emptyInteraction = \<lparr> i_id = None, i_label = None, i_x_min = None, i_y_min = None,
     i_width = None, i_height = None, i_color = None, i_source = None,
     startX = None, startY = None, boxInitialX = None, boxInitialY = None \<rparr>"

text \<open>The spread \<open>...box\<close> of a full box into an interaction state.\<close>

definition spreadBox :: "BoundingBox \<Rightarrow> InteractionState \<Rightarrow> InteractionState" where
  "spreadBox b i = i\<lparr> i_id := Some (box_id b), i_label := Some (label b),
     i_x_min := Some (x_min b), i_y_min := Some (y_min b),
     i_width := Some (width b), i_height := Some (height b),
     i_color := color b, i_source := Some (source b) \<rparr>"

record RenderSize =
  rs_width :: real
  rs_height :: real
  offsetX :: real
  offsetY :: real

text \<open>
  The component's state variables, the two layout inputs the handlers read
  (\<open>svgRef.current.getBoundingClientRect()\<close>: its \<open>left\<close> and \<open>top\<close>, \<open>None\<close> while the ref
  is null) and the colour module's state.
\<close>

record Editor =
  boxes :: "BoundingBox list"
  selectedBoxId :: "string option"
  interactionMode :: InteractionMode
  currentDrawingBox :: "InteractionState option"
  resizeHandle :: "ResizeHandle option"
  assistPrompt :: string
  isAssisting :: bool
  assistError :: "string option"
  svgRect :: "(real \<times> real) option"
  imageRenderSize :: RenderSize
  labelColors :: LabelColors

text \<open>JavaScript truthiness of an optional number (\<open>0\<close> and \<open>undefined\<close> are falsy) and of
  a nullable string (\<open>null\<close> and the empty string are falsy).\<close>

definition truthyNum :: "real option \<Rightarrow> bool" where
  "truthyNum v = (case v of None \<Rightarrow> False | Some r \<Rightarrow> r \<noteq> 0)"

definition truthyStr :: "string option \<Rightarrow> bool" where
  "truthyStr v = (case v of None \<Rightarrow> False | Some t \<Rightarrow> t \<noteq> [])"

subsection \<open>Coordinate conversion\<close>

text \<open>
  \<open>getNormalizedCoords\<close> guards the rendered width only. With a rendered height of \<open>0\<close> the
  quotient for \<open>y\<close> is \<open>Infinity\<close> or \<open>-Infinity\<close>, which the clamp takes to \<open>1\<close> or \<open>0\<close>;
  these two cases are written out. For \<open>0 / 0\<close> JavaScript has \<open>NaN\<close>, which \<open>real\<close> cannot
  hold: the model takes \<open>0\<close> there, and the statements that depend on \<open>y\<close> assume a
  non-zero rendered height.
\<close>

definition getNormalizedCoords :: "Editor \<Rightarrow> real \<Rightarrow> real \<Rightarrow> (real \<times> real) option" where
  "getNormalizedCoords s clientX clientY =
     (case svgRect s of
        None \<Rightarrow> None
      | Some (rectLeft, rectTop) \<Rightarrow>
          if rs_width (imageRenderSize s) = 0 then None
          else
            let x = (clientX - rectLeft - offsetX (imageRenderSize s)) / rs_width (imageRenderSize s);
                ny = clientY - rectTop - offsetY (imageRenderSize s)
            in Some (max 0 (min 1 x),
                     if rs_height (imageRenderSize s) = 0 then (if 0 < ny then 1 else 0)
                     else max 0 (min 1 (ny / rs_height (imageRenderSize s)))))"

record DisplayRect =
  d_x :: real
  d_y :: real
  d_width :: real
  d_height :: real

text \<open>\<open>toDisplayCoords\<close> takes a \<open>Partial<BoundingBox>\<close>; the empty object \<open>{}\<close> it may
  return is \<open>None\<close>.\<close>

definition toDisplayCoords :: "RenderSize \<Rightarrow> InteractionState \<Rightarrow> DisplayRect option" where
  "toDisplayCoords rs b =
     (if \<not> truthyNum (i_x_min b) \<or> \<not> truthyNum (i_y_min b) \<or> \<not> truthyNum (i_width b)
          \<or> \<not> truthyNum (i_height b) \<or> rs_width rs = 0
      then None
      else Some \<lparr> d_x = the (i_x_min b) * rs_width rs + offsetX rs,
                  d_y = the (i_y_min b) * rs_height rs + offsetY rs,
                  d_width = the (i_width b) * rs_width rs,
                  d_height = the (i_height b) * rs_height rs \<rparr>)"

definition toDisplayCoordsBox :: "RenderSize \<Rightarrow> BoundingBox \<Rightarrow> DisplayRect option" where
  "toDisplayCoordsBox rs b = toDisplayCoords rs (spreadBox b emptyInteraction)"

text \<open>\<open>getHandlePositions\<close>: handle id and centre, in display pixels (the cursor style is
  left out).\<close>

definition getHandlePositions :: "RenderSize \<Rightarrow> BoundingBox \<Rightarrow> (ResizeHandle \<times> real \<times> real) list" where
  "getHandlePositions rs b =
     (case toDisplayCoordsBox rs b of
        None \<Rightarrow> []
      | Some disp \<Rightarrow>
          if d_x disp = 0 then []
          else [(NW, d_x disp, d_y disp),
                (NE, d_x disp + d_width disp, d_y disp),
                (SW, d_x disp, d_y disp + d_height disp),
                (SE, d_x disp + d_width disp, d_y disp + d_height disp)])"

text \<open>The body of \<open>boxes.map\<close> in the SVG: a box whose display rectangle has no \<open>x\<close> renders
  \<open>null\<close>; otherwise a rectangle, and the handles when the box is the selected one.\<close>

definition renderBox :: "Editor \<Rightarrow> BoundingBox \<Rightarrow> (DisplayRect \<times> (ResizeHandle \<times> real \<times> real) list) option" where
  "renderBox s b =
     (case toDisplayCoordsBox (imageRenderSize s) b of
        None \<Rightarrow> None
      | Some r \<Rightarrow> Some (r, if Some (box_id b) = selectedBoxId s
                            then getHandlePositions (imageRenderSize s) b else []))"

subsection \<open>Pointer handlers\<close>

text \<open>\<open>boxes.find(b => b.id === selectedBoxId)\<close>: the first box with the selected id.\<close>

definition findSelected :: "Editor \<Rightarrow> BoundingBox option" where
  "findSelected s =
     (case selectedBoxId s of
        None \<Rightarrow> None
      | Some i \<Rightarrow> List.find (\<lambda>b. box_id b = i) (boxes s))"

text \<open>The loop of \<open>handleMouseDown\<close> that walks the boxes from the last to the first and
  stops at the first one containing the point.\<close>

definition containsPoint :: "BoundingBox \<Rightarrow> real \<times> real \<Rightarrow> bool" where
  "containsPoint box c =
     (fst c \<ge> x_min box \<and> fst c \<le> x_min box + width box \<and>
      snd c \<ge> y_min box \<and> snd c \<le> y_min box + height box)"

definition topmostAt :: "BoundingBox list \<Rightarrow> real \<times> real \<Rightarrow> BoundingBox option" where
  "topmostAt bs c = List.find (\<lambda>box. containsPoint box c) (rev bs)"

text \<open>
  \<open>handleSize = 10 / Math.min(width, height)\<close> is \<open>Infinity\<close> when the smaller side is
  \<open>0\<close>, and every finite distance is below it; that case is written out.
\<close>

definition onSeHandle :: "Editor \<Rightarrow> real \<times> real \<Rightarrow> bool" where
  "onSeHandle s c =
     (case findSelected s of
        None \<Rightarrow> False
      | Some selectedBox \<Rightarrow>
          let m = min (rs_width (imageRenderSize s)) (rs_height (imageRenderSize s)) in
          if m = 0 then True
          else \<bar>fst c - (x_min selectedBox + width selectedBox)\<bar> < 10 / m \<and>
               \<bar>snd c - (y_min selectedBox + height selectedBox)\<bar> < 10 / m)"

definition handleMouseDown :: "Editor \<Rightarrow> real \<Rightarrow> real \<Rightarrow> Editor" where
  "handleMouseDown s clientX clientY =
     (case getNormalizedCoords s clientX clientY of
        None \<Rightarrow> s
      | Some coords \<Rightarrow>
          if interactionMode s = Draw then
            s\<lparr> currentDrawingBox := Some (emptyInteraction\<lparr> i_x_min := Some (fst coords),
                  i_y_min := Some (snd coords), i_width := Some 0, i_height := Some 0 \<rparr>) \<rparr>
          else if onSeHandle s coords then
            s\<lparr> interactionMode := Resize, resizeHandle := Some SE \<rparr>
          else
            (case topmostAt (boxes s) coords of
               Some box \<Rightarrow>
                 s\<lparr> selectedBoxId := Some (box_id box), interactionMode := Move,
                    currentDrawingBox := Some (emptyInteraction\<lparr> startX := Some (fst coords),
                      startY := Some (snd coords), boxInitialX := Some (x_min box),
                      boxInitialY := Some (y_min box) \<rparr>) \<rparr>
             | None \<Rightarrow>
                 s\<lparr> selectedBoxId := None,
                    interactionMode := (if interactionMode s = Move \<or> interactionMode s = Resize
                                        then Select else interactionMode s) \<rparr>))"

text \<open>The \<open>onMouseDown\<close> of a handle circle of box \<open>b\<close> (it stops propagation, so
  \<open>handleMouseDown\<close> does not run).\<close>

definition onHandleMouseDown :: "Editor \<Rightarrow> BoundingBox \<Rightarrow> ResizeHandle \<Rightarrow> real \<Rightarrow> real \<Rightarrow> Editor" where
  "onHandleMouseDown s b h clientX clientY =
     (let s1 = s\<lparr> interactionMode := Resize, resizeHandle := Some h \<rparr> in
      case getNormalizedCoords s clientX clientY of
        None \<Rightarrow> s1
      | Some c \<Rightarrow> s1\<lparr> currentDrawingBox :=
          Some (spreadBox b (emptyInteraction\<lparr> startX := Some (fst c), startY := Some (snd c) \<rparr>)) \<rparr>)"

text \<open>The three branches of \<open>handleMouseMove\<close>, each given the normalized pointer position.\<close>

definition drawBranch :: "Editor \<Rightarrow> InteractionState \<Rightarrow> real \<Rightarrow> real \<Rightarrow> real \<times> real \<Rightarrow> Editor" where
  "drawBranch s cb curX curY coords =
     (let newWidth = \<bar>fst coords - curX\<bar>;
          newHeight = \<bar>snd coords - curY\<bar>
      in s\<lparr> currentDrawingBox := Some (cb\<lparr> i_width := Some newWidth, i_height := Some newHeight,
              i_x_min := Some (min (fst coords) curX), i_y_min := Some (min (snd coords) curY) \<rparr>) \<rparr>)"

text \<open>
  In the move branch \<open>startY\<close> is read without a check. Every writer of \<open>startX\<close> writes
  \<open>startY\<close> too; were it \<open>undefined\<close>, the new \<open>y_min\<close> would be \<open>NaN\<close>, which \<open>real\<close>
  cannot hold, and the model leaves the state as it is.
\<close>

definition moveBranch :: "Editor \<Rightarrow> InteractionState \<Rightarrow> string \<Rightarrow> real \<Rightarrow> real \<times> real \<Rightarrow> Editor" where
  "moveBranch s cb sid sx coords =
     (case findSelected s of
        None \<Rightarrow> s
      | Some selectedBox \<Rightarrow>
          (case (boxInitialX cb, boxInitialY cb, startY cb) of
             (Some bx, Some by, Some sy) \<Rightarrow>
               let dx = fst coords - sx;
                   dy = snd coords - sy;
                   newXMin = max 0 (min (bx + dx) (1 - width selectedBox));
                   newYMin = max 0 (min (by + dy) (1 - height selectedBox))
               in s\<lparr> boxes := map (\<lambda>b. if box_id b = sid
                                         then b\<lparr> x_min := newXMin, y_min := newYMin, source := HumanEdited \<rparr>
                                         else b) (boxes s) \<rparr>
           | _ \<Rightarrow> s))"

definition resizeBranch :: "Editor \<Rightarrow> string \<Rightarrow> ResizeHandle \<Rightarrow> real \<times> real \<Rightarrow> Editor" where
  "resizeBranch s sid h coords =
     (case findSelected s of
        None \<Rightarrow> s
      | Some selectedBox \<Rightarrow>
          let x = x_min selectedBox;
              y = y_min selectedBox;
              w0 = (if h = SE then max 0.01 (fst coords - x) else width selectedBox);
              h0 = (if h = SE then max 0.01 (snd coords - y) else height selectedBox);
              w1 = (if x + w0 > 1 then 1 - x else w0);
              h1 = (if y + h0 > 1 then 1 - y else h0)
          in s\<lparr> boxes := map (\<lambda>b. if box_id b = sid
                                    then b\<lparr> x_min := x, y_min := y, width := w1, height := h1,
                                            source := HumanEdited \<rparr>
                                    else b) (boxes s) \<rparr>)"

definition mouseMoveAt :: "Editor \<Rightarrow> InteractionState \<Rightarrow> real \<times> real \<Rightarrow> Editor" where
  "mouseMoveAt s cb coords =
     (if interactionMode s = Draw \<and> i_x_min cb \<noteq> None \<and> i_y_min cb \<noteq> None then
        drawBranch s cb (the (i_x_min cb)) (the (i_y_min cb)) coords
      else if interactionMode s = Move \<and> truthyStr (selectedBoxId s) \<and> startX cb \<noteq> None then
        moveBranch s cb (the (selectedBoxId s)) (the (startX cb)) coords
      else if interactionMode s = Resize \<and> truthyStr (selectedBoxId s) \<and> resizeHandle s \<noteq> None then
        resizeBranch s (the (selectedBoxId s)) (the (resizeHandle s)) coords
      else s)"

definition handleMouseMove :: "Editor \<Rightarrow> real \<times> real \<Rightarrow> Editor" where
  "handleMouseMove s client =
     (case getNormalizedCoords s (fst client) (snd client) of
        None \<Rightarrow> s
      | Some coords \<Rightarrow>
          (case currentDrawingBox s of
             None \<Rightarrow> s
           | Some cb \<Rightarrow> mouseMoveAt s cb coords))"

text \<open>
  \<open>handleMouseUp\<close>. \<open>promptResult\<close> is what \<open>prompt(...)\<close> returns if it is called (\<open>None\<close>
  for a cancelled dialog) and \<open>uuid\<close> what \<open>crypto.randomUUID()\<close> returns if it is called.
  A truthy width is only ever stored together with \<open>x_min\<close> and \<open>y_min\<close>; a box with an
  \<open>undefined\<close> corner is not a value of the record, and the model adds none.
\<close>

definition commitDrawing :: "string list \<Rightarrow> string option \<Rightarrow> string \<Rightarrow> Editor \<Rightarrow> Editor" where
  "commitDrawing pal promptResult uuid s =
     (case currentDrawingBox s of
        None \<Rightarrow> s
      | Some cb \<Rightarrow>
          if interactionMode s = Draw \<and> truthyNum (i_width cb) \<and> truthyNum (i_height cb) then
            (if truthyStr promptResult then
               (case (i_x_min cb, i_y_min cb) of
                  (Some bx, Some by) \<Rightarrow>
                    let newLabel = the promptResult;
                        (c, lc) = getLabelColor pal (labelColors s) newLabel;
                        newBox = \<lparr> box_id = uuid, label = newLabel, x_min = bx, y_min = by,
                                   width = the (i_width cb), height = the (i_height cb),
                                   color = c, source = HumanAdded \<rparr>
                    in s\<lparr> boxes := boxes s @ [newBox], selectedBoxId := Some uuid,
                          labelColors := lc \<rparr>
                | _ \<Rightarrow> s)
             else s)
          else s)"

definition handleMouseUp :: "string list \<Rightarrow> string option \<Rightarrow> string \<Rightarrow> Editor \<Rightarrow> Editor" where
  "handleMouseUp pal promptResult uuid s =
     (let s1 = commitDrawing pal promptResult uuid s;
          s2 = (if interactionMode s = Move \<or> interactionMode s = Resize
                then s1\<lparr> interactionMode := Select \<rparr> else s1)
      in s2\<lparr> currentDrawingBox := None, resizeHandle := None \<rparr>)"

section \<open>Assisted annotations (generateAssistedAnnotations, handleGeminiAssistRequest)\<close>

text \<open>
  The remote call is an input of the model. A parsed JSON value is \<open>jval\<close> as far as
  \<open>typeof\<close> tells its cases apart; an array entry is \<open>null\<close> (reading \<open>b.label\<close> throws)
  or anything else, seen through the properties the code reads (an absent property is
  \<open>JOther\<close>).
\<close>

datatype jval = JString string | JNumber real | JOther

record RawBox =
  r_label :: jval
  r_x_min :: jval
  r_y_min :: jval
  r_width :: jval
  r_height :: jval
  r_color :: jval

datatype RawEntry = RNull | RObj RawBox

text \<open>A thrown or rejected value: an \<open>Error\<close> with its message, or a value that is no
  \<open>Error\<close> and has no \<open>message\<close> (the event a failing \<open>FileReader\<close> rejects with).\<close>

datatype Thrown = ErrorObj string | NonError

datatype Remote =
    Rejected Thrown
  | InvalidJson string
  | NotArray
  | Entries "RawEntry list"

text \<open>\<open>s.includes(t)\<close>.\<close>

fun strIncludes :: "string \<Rightarrow> string \<Rightarrow> bool" where
  "strIncludes [] t = (t = [])"
| "strIncludes (c # cs) t = (take (length t) (c # cs) = t \<or> strIncludes cs t)"

definition invalidJsonMessage :: "string \<Rightarrow> string" where
  "invalidJsonMessage responseText =
     ''Gemini returned an invalid JSON response. The prompt might need adjustment or the model produced unexpected output. Original response: '' @ responseText"

text \<open>The message of the \<open>TypeError\<close> for \<open>null.label\<close> depends on the engine; its text plays
  no role below.\<close>

definition nullEntryMessage :: string where
  "nullEntryMessage = ''Cannot read properties of null''"

text \<open>The \<open>forEach\<close> over the parsed array; \<open>uuids k\<close> is the result of the \<open>k\<close>-th call of
  \<open>crypto.randomUUID()\<close>.\<close>

definition wellFormed :: "RawBox \<Rightarrow> bool" where
  "wellFormed b =
     (case (r_label b, r_x_min b, r_y_min b, r_width b, r_height b) of
        (JString l, JNumber x, JNumber y, JNumber w, JNumber h) \<Rightarrow> True
      | _ \<Rightarrow> False)"

definition strOf :: "jval \<Rightarrow> string" where
  "strOf v = (case v of JString t \<Rightarrow> t | _ \<Rightarrow> [])"

definition numOf :: "jval \<Rightarrow> real" where
  "numOf v = (case v of JNumber r \<Rightarrow> r | _ \<Rightarrow> 0)"

definition assistedBox :: "string \<Rightarrow> RawBox \<Rightarrow> BoundingBox" where
  "assistedBox uuid b =
     \<lparr> box_id = uuid, label = strOf (r_label b), x_min = numOf (r_x_min b),
       y_min = numOf (r_y_min b), width = numOf (r_width b), height = numOf (r_height b),
       color = (case r_color b of JString c \<Rightarrow> Some c | _ \<Rightarrow> None),
       source = GeminiAssisted \<rparr>"

fun validateEntries :: "(nat \<Rightarrow> string) \<Rightarrow> nat \<Rightarrow> RawEntry list \<Rightarrow> Thrown + BoundingBox list" where
  "validateEntries uuids k [] = Inr []"
| "validateEntries uuids k (RNull # es) = Inl (ErrorObj nullEntryMessage)"
| "validateEntries uuids k (RObj b # es) =
     (if wellFormed b then
        (case validateEntries uuids (k + 1) es of
           Inl e \<Rightarrow> Inl e
         | Inr bs \<Rightarrow> Inr (assistedBox (uuids k) b # bs))
      else validateEntries uuids k es)"

text \<open>The \<open>catch\<close> block: the message of the \<open>Error\<close> that is thrown on.\<close>

definition assistFailureMessage :: "Thrown \<Rightarrow> string" where
  "assistFailureMessage e =
     (case e of
        NonError \<Rightarrow> ''Failed to get assistance from Gemini.''
      | ErrorObj m \<Rightarrow>
          if m \<noteq> [] \<and> strIncludes m ''API key not valid'' then
            ''Invalid Gemini API Key. Please check your configuration.''
          else if m \<noteq> [] \<and> (strIncludes m ''resource has been exhausted'' \<or> strIncludes m ''Quota exceeded'') then
            ''Gemini API quota exceeded. Please try again later.''
          else m)"

text \<open>\<open>Inl m\<close> is a promise rejected with \<open>new Error(m)\<close>. \<open>aiReady\<close> says whether the client
  \<open>ai\<close> was created (an API key was set).\<close>

definition generateAssistedAnnotations :: "bool \<Rightarrow> (nat \<Rightarrow> string) \<Rightarrow> Remote \<Rightarrow> string + BoundingBox list" where
  "generateAssistedAnnotations aiReady uuids remote =
     (if \<not> aiReady then Inl ''Gemini API client is not initialized. API_KEY might be missing.''
      else
        (case (case remote of
                 Rejected e \<Rightarrow> Inl e
               | InvalidJson t \<Rightarrow> Inl (ErrorObj (invalidJsonMessage t))
               | NotArray \<Rightarrow> Inr []
               | Entries es \<Rightarrow> validateEntries uuids 0 es) of
           Inl e \<Rightarrow> Inl (assistFailureMessage e)
         | Inr bs \<Rightarrow> Inr bs))"

text \<open>\<open>String.prototype.trim\<close>, for the ASCII white space.\<close>

definition isWhiteSpace :: "char \<Rightarrow> bool" where
  "isWhiteSpace c = (c \<in> set [CHR 0x20, CHR 0x09, CHR 0x0A, CHR 0x0B, CHR 0x0C, CHR 0x0D])"

definition trim :: "string \<Rightarrow> string" where
  "trim t = rev (dropWhile isWhiteSpace (rev (dropWhile isWhiteSpace t)))"

text \<open>\<open>newSuggestedBoxes.map(b => ({...b, color: getLabelColor(b.label)}))\<close>.\<close>

fun withColors :: "string list \<Rightarrow> LabelColors \<Rightarrow> BoundingBox list \<Rightarrow> BoundingBox list \<times> LabelColors" where
  "withColors pal st [] = ([], st)"
| "withColors pal st (b # bs) =
     (let (c, st1) = getLabelColor pal st (label b);
          (bs', st2) = withColors pal st1 bs
      in (b\<lparr> color := c \<rparr> # bs', st2))"

text \<open>
  \<open>handleGeminiAssistRequest\<close>; \<open>result\<close> is the outcome of the awaited \<open>onGeminiAssist\<close>
  call (\<open>Inl\<close> a rejection). The request is taken as one step: \<open>boxes s\<close> is the working
  set at the moment the promise settles.
\<close>

definition handleGeminiAssistRequest :: "string list \<Rightarrow> Thrown + BoundingBox list \<Rightarrow> Editor \<Rightarrow> Editor" where
  "handleGeminiAssistRequest pal result s =
     (if trim (assistPrompt s) = [] then
        s\<lparr> assistError := Some ''Please enter a prompt for Gemini Assist.'' \<rparr>
      else
        (case result of
           Inr newSuggestedBoxes \<Rightarrow>
             let (boxesWithColors, lc) = withColors pal (labelColors s) newSuggestedBoxes
             in s\<lparr> boxes := boxes s @ boxesWithColors, assistPrompt := [], assistError := None,
                   isAssisting := False, labelColors := lc \<rparr>
         | Inl err \<Rightarrow>
             s\<lparr> assistError := Some (case err of
                                        ErrorObj m \<Rightarrow> if m = [] then ''Gemini Assist failed.'' else m
                                      | NonError \<Rightarrow> ''Gemini Assist failed.''),
                isAssisting := False \<rparr>))"

text \<open>The wiring in \<open>App\<close>: \<open>onGeminiAssist\<close> is \<open>generateAssistedAnnotations\<close>.\<close>

definition assistInEditor :: "string list \<Rightarrow> bool \<Rightarrow> (nat \<Rightarrow> string) \<Rightarrow> Remote \<Rightarrow> Editor \<Rightarrow> Editor" where
  "assistInEditor pal aiReady uuids remote s =
     handleGeminiAssistRequest pal
       (case generateAssistedAnnotations aiReady uuids remote of
          Inl m \<Rightarrow> Inl (ErrorObj m)
        | Inr bs \<Rightarrow> Inr bs) s"

section \<open>Properties\<close>

subsection \<open>Vocabulary of the statements\<close>

text \<open>A box inside the unit square with positive extent, and a concrete editor over a
  400 by 300 container for the worked examples.\<close>

definition validBox :: "BoundingBox \<Rightarrow> bool" where
  "validBox b =
     (0 \<le> x_min b \<and> 0 < width b \<and> x_min b + width b \<le> 1 \<and>
      0 \<le> y_min b \<and> 0 < height b \<and> y_min b + height b \<le> 1)"

definition exampleEditor :: "BoundingBox list \<Rightarrow> string option \<Rightarrow> InteractionMode \<Rightarrow> InteractionState option \<Rightarrow> ResizeHandle option \<Rightarrow> Editor" where
  "exampleEditor bs sel m cb h =
     \<lparr> boxes = bs, selectedBoxId = sel, interactionMode = m, currentDrawingBox = cb,
       resizeHandle = h, assistPrompt = [], isAssisting = False, assistError = None,
       svgRect = Some (0, 0),
       imageRenderSize = \<lparr> rs_width = 400, rs_height = 300, offsetX = 0, offsetY = 0 \<rparr>,
       labelColors = initialLabelColors \<rparr>"

definition exampleBox :: "string \<Rightarrow> real \<Rightarrow> real \<Rightarrow> real \<Rightarrow> real \<Rightarrow> BoundingBox" where
  "exampleBox i x y w h =
     \<lparr> box_id = i, label = ''object'', x_min = x, y_min = y, width = w, height = h,
       color = None, source = HumanAdded \<rparr>"

text \<open>
  States in which the pointer arithmetic stays within the reals: a rendered height of \<open>0\<close>
  beside a non-zero width, or a move anchor with \<open>startX\<close> but no \<open>startY\<close>, would bring
  \<open>NaN\<close> into the coordinates.
\<close>

definition finiteArithmetic :: "Editor \<Rightarrow> bool" where
  "finiteArithmetic s =
     (rs_height (imageRenderSize s) \<noteq> 0 \<and>
      (case currentDrawingBox s of
         None \<Rightarrow> True
       | Some cb \<Rightarrow> startX cb \<noteq> None \<longrightarrow> startY cb \<noteq> None))"

text \<open>An editor in the middle of moving box \<open>a\<close>, pressed at \<open>(0.2, 0.2)\<close>.\<close>

definition movingEditor :: Editor where
  "movingEditor =
     exampleEditor [exampleBox ''a'' 0.1 0.1 0.2 0.2, exampleBox ''b'' 0.5 0.5 0.5 0.5]
       (Some ''a'') Move
       (Some (emptyInteraction\<lparr> startX := Some 0.2, startY := Some 0.2,
                                boxInitialX := Some 0.1, boxInitialY := Some 0.1 \<rparr>))
       None"

definition drawingEditor :: Editor where
  "drawingEditor = exampleEditor [exampleBox ''a'' 0.1 0.1 0.2 0.2] None Draw None None"

definition zeroExtent :: "Editor \<Rightarrow> bool" where
  "zeroExtent s =
     (case currentDrawingBox s of
        None \<Rightarrow> True
      | Some cb \<Rightarrow> \<not> truthyNum (i_width cb) \<or> \<not> truthyNum (i_height cb))"

text \<open>Two editors at rest in select mode, each with its one box selected.\<close>

definition nwEditor :: Editor where
  "nwEditor = exampleEditor [exampleBox ''a'' 0.2 0.2 0.4 0.4] (Some ''a'') Select None None"

definition seEditor :: Editor where
  "seEditor = exampleEditor [exampleBox ''a'' 0.1 0.1 0.2 0.2] (Some ''a'') Select None None"

text \<open>A press in draw mode starts a drawing of zero extent, and pointer moves that stay on
  the pressed point keep it so.\<close>

definition pressedAt :: "Editor \<Rightarrow> real \<times> real \<Rightarrow> bool" where
  "pressedAt s c =
     (case currentDrawingBox s of
        None \<Rightarrow> False
      | Some cb \<Rightarrow> i_x_min cb = Some (fst c) \<and> i_y_min cb = Some (snd c) \<and>
                   i_width cb = Some 0 \<and> i_height cb = Some 0)"

text \<open>The counter is the number of labels in the map, and the map holds the labels asked
  for since the reset.\<close>

definition counted :: "LabelColors \<Rightarrow> bool" where
  "counted st = (finite (dom (labelColorMap st)) \<and> colorIndex st = card (dom (labelColorMap st)))"

definition exampleUuids :: "nat \<Rightarrow> string" where
  "exampleUuids k = replicate (Suc k) (CHR ''u'')"

definition exampleResponse :: "RawBox list" where
  "exampleResponse =
     [\<lparr> r_label = JString ''object'', r_x_min = JNumber 0.1, r_y_min = JNumber 0.1,
        r_width = JNumber 0.2, r_height = JNumber 0.2, r_color = JOther \<rparr>,
      \<lparr> r_label = JString ''cat'', r_x_min = JNumber 0.5, r_y_min = JNumber 0.4,
        r_width = JNumber 0.3, r_height = JNumber 0.2, r_color = JOther \<rparr>]"

definition assistEditor :: Editor where
  "assistEditor =
     (exampleEditor [exampleBox ''h1'' 0.1 0.1 0.2 0.2] None Select None None)
       \<lparr> assistPrompt := ''find the cats'' \<rparr>"

subsection \<open>The selected box\<close>

lemma find_map_same_id:
  assumes "\<And>b. box_id (g b) = box_id b"
  shows "List.find (\<lambda>b. box_id b = i) (map (\<lambda>b. if box_id b = i then g b else b) bs)
         = map_option g (List.find (\<lambda>b. box_id b = i) bs)"
  by (induction bs) (simp_all add: assms)


lemma findSelected_id:
  "findSelected s = Some sb \<Longrightarrow> selectedBoxId s = Some (box_id sb) \<and> sb \<in> set (boxes s)"
  by (auto simp: findSelected_def find_Some_iff split: option.splits)

lemma findSelected_boxes_update:
  assumes "selectedBoxId s = Some i" and "\<And>b. box_id (g b) = box_id b"
  shows "findSelected (s\<lparr> boxes := map (\<lambda>b. if box_id b = i then g b else b) (boxes s) \<rparr>)
         = map_option g (findSelected s)"
  using assms by (simp add: findSelected_def find_map_same_id)

lemma resizeBranch_selected:
  assumes "findSelected s = Some sb"
  shows "findSelected (resizeBranch s (box_id sb) h c) =
           Some (sb\<lparr> width := (let w0 = (if h = SE then max 0.01 (fst c - x_min sb) else width sb)
                              in if x_min sb + w0 > 1 then 1 - x_min sb else w0),
                     height := (let h0 = (if h = SE then max 0.01 (snd c - y_min sb) else height sb)
                               in if y_min sb + h0 > 1 then 1 - y_min sb else h0),
                     source := HumanEdited \<rparr>)"
proof -
  have sel: "selectedBoxId s = Some (box_id sb)"
    using assms findSelected_id by blast
  show ?thesis
    unfolding resizeBranch_def Let_def using assms sel
    by (simp add: findSelected_def find_map_same_id)
qed

lemma mouseMoveAt_resize:
  assumes "interactionMode s = Resize" and "resizeHandle s = Some h"
    and "findSelected s = Some sb" and "box_id sb \<noteq> []"
  shows "mouseMoveAt s cb c = resizeBranch s (box_id sb) h c"
  using assms findSelected_id [OF assms(3)] by (simp add: mouseMoveAt_def truthyStr_def)

text \<open>
  Claim C10. A box with \<open>x_min = 0\<close>, \<open>y_min = 0\<close>, \<open>width = 0\<close> or \<open>height = 0\<close> gets the
  empty record from \<open>toDisplayCoords\<close> whatever the container's size, so it is not
  rendered and has no resize handles.
\<close>

theorem zero_coordinate_box_not_displayed:
  assumes "x_min b = 0 \<or> y_min b = 0 \<or> width b = 0 \<or> height b = 0"
  shows "toDisplayCoordsBox (imageRenderSize s) b = None \<and> renderBox s b = None \<and>
         getHandlePositions (imageRenderSize s) b = []"
proof -
  have "toDisplayCoordsBox (imageRenderSize s) b = None"
    using assms by (auto simp: toDisplayCoordsBox_def toDisplayCoords_def spreadBox_def truthyNum_def)
  then show ?thesis
    by (simp add: renderBox_def getHandlePositions_def)
qed

theorem zero_coordinate_box_not_displayed_witness:
  "rs_width (imageRenderSize (exampleEditor [exampleBox ''a'' 0 0.25 0.5 0.5] (Some ''a'') Select None None))
     * rs_height (imageRenderSize (exampleEditor [exampleBox ''a'' 0 0.25 0.5 0.5] (Some ''a'') Select None None)) \<noteq> 0
   \<and> validBox (exampleBox ''a'' 0 0.25 0.5 0.5)
   \<and> renderBox (exampleEditor [exampleBox ''a'' 0 0.25 0.5 0.5] (Some ''a'') Select None None)
        (exampleBox ''a'' 0 0.25 0.5 0.5) = None
   \<and> getHandlePositions (imageRenderSize (exampleEditor [exampleBox ''a'' 0 0.25 0.5 0.5] (Some ''a'') Select None None))
        (exampleBox ''a'' 0 0.25 0.5 0.5) = []"
  using zero_coordinate_box_not_displayed
    [of "exampleBox ''a'' 0 0.25 0.5 0.5"
        "exampleEditor [exampleBox ''a'' 0 0.25 0.5 0.5] (Some ''a'') Select None None"]
  by (simp add: exampleBox_def exampleEditor_def validBox_def)

subsection \<open>Move and resize keep boxes inside the image\<close>

lemma same_id_same_box:
  assumes "distinct (map box_id bs)" and "a \<in> set bs" and "b \<in> set bs" and "box_id a = box_id b"
  shows "a = b"
  using assms by (meson distinct_map inj_on_eq_iff)



lemma moveBranch_ids:
  "map box_id (boxes (moveBranch s cb sid sx c)) = map box_id (boxes s)"
  unfolding moveBranch_def Let_def by (auto split: option.splits)

lemma resizeBranch_ids:
  "map box_id (boxes (resizeBranch s sid h c)) = map box_id (boxes s)"
  unfolding resizeBranch_def Let_def by (auto split: option.splits)

lemma moveBranch_selected_valid:
  assumes sel: "findSelected s = Some sb" and vsb: "validBox sb"
    and after: "findSelected (moveBranch s cb (box_id sb) sx c) = Some sb'"
  shows "validBox sb'"
proof -
  have id: "selectedBoxId s = Some (box_id sb)"
    using sel findSelected_id by blast
  have fnd: "List.find (\<lambda>b. box_id b = box_id sb) (boxes s) = Some sb"
    using sel id by (simp add: findSelected_def)
  show ?thesis
  proof (cases "moveBranch s cb (box_id sb) sx c = s")
    case True
    then show ?thesis using sel vsb after by simp
  next
    case False
    then obtain nx ny where
      "moveBranch s cb (box_id sb) sx c =
         s\<lparr> boxes := map (\<lambda>b. if box_id b = box_id sb
                 then b\<lparr> x_min := max 0 (min nx (1 - width sb)),
                         y_min := max 0 (min ny (1 - height sb)), source := HumanEdited \<rparr>
                 else b) (boxes s) \<rparr>"
      unfolding moveBranch_def Let_def using sel by (auto split: option.splits)
    then have "findSelected (moveBranch s cb (box_id sb) sx c) =
        Some (sb\<lparr> x_min := max 0 (min nx (1 - width sb)),
                  y_min := max 0 (min ny (1 - height sb)), source := HumanEdited \<rparr>)"
      using id fnd by (simp add: findSelected_def find_map_same_id)
    then have "sb' = sb\<lparr> x_min := max 0 (min nx (1 - width sb)),
                  y_min := max 0 (min ny (1 - height sb)), source := HumanEdited \<rparr>"
      using after by simp
    then show ?thesis using vsb by (auto simp: validBox_def max_def min_def)
  qed
qed

lemma resizeBranch_selected_valid:
  assumes sel: "findSelected s = Some sb" and vsb: "validBox sb"
    and after: "findSelected (resizeBranch s (box_id sb) h c) = Some sb'"
  shows "validBox sb'"
proof -
  have "sb' = sb\<lparr> width := (let w0 = (if h = SE then max 0.01 (fst c - x_min sb) else width sb)
                              in if x_min sb + w0 > 1 then 1 - x_min sb else w0),
                     height := (let h0 = (if h = SE then max 0.01 (snd c - y_min sb) else height sb)
                               in if y_min sb + h0 > 1 then 1 - y_min sb else h0),
                     source := HumanEdited \<rparr>"
    using after resizeBranch_selected [OF sel, of h c] by simp
  then show ?thesis using vsb by (auto simp: validBox_def Let_def max_def)
qed

lemma moveBranch_all_valid:
  assumes valid: "\<forall>b\<in>set (boxes s). validBox b" and dist: "distinct (map box_id (boxes s))"
    and sel: "findSelected s = Some sb"
  shows "\<forall>b\<in>set (boxes (moveBranch s cb (box_id sb) sx c)). validBox b"
proof -
  have sb_in: "sb \<in> set (boxes s)" using sel findSelected_id by blast
  have key: "validBox (b\<lparr> x_min := max 0 (min nx (1 - width sb)),
                           y_min := max 0 (min ny (1 - height sb)), source := HumanEdited \<rparr>)"
    if "b \<in> set (boxes s)" and "box_id b = box_id sb" for b nx ny
  proof -
    have "b = sb" using that sb_in dist same_id_same_box by blast
    moreover have "validBox sb" using valid sb_in by blast
    ultimately show ?thesis by (auto simp: validBox_def max_def min_def)
  qed
  show ?thesis
    unfolding moveBranch_def Let_def using sel valid key
    by (auto split: option.splits)
qed

lemma resizeBranch_all_valid:
  assumes valid: "\<forall>b\<in>set (boxes s). validBox b"
    and sel: "findSelected s = Some sb"
  shows "\<forall>b\<in>set (boxes (resizeBranch s (box_id sb) h c)). validBox b"
proof -
  have "validBox sb" using valid sel findSelected_id by blast
  then have key: "validBox (b\<lparr> x_min := x_min sb, y_min := y_min sb,
       width := (if x_min sb + (if h = SE then max 0.01 (fst c - x_min sb) else width sb) > 1
                 then 1 - x_min sb else (if h = SE then max 0.01 (fst c - x_min sb) else width sb)),
       height := (if y_min sb + (if h = SE then max 0.01 (snd c - y_min sb) else height sb) > 1
                 then 1 - y_min sb else (if h = SE then max 0.01 (snd c - y_min sb) else height sb)),
       source := HumanEdited \<rparr>)" for b
    by (auto simp: validBox_def max_def)
  show ?thesis
    unfolding resizeBranch_def Let_def using sel valid key
    by (auto split: option.splits)
qed


text \<open>What a pointer move can do to the state: nothing, a new in-progress drawing, or the
  move or resize of the boxes carrying the selected id.\<close>

lemma mouseMoveAt_cases:
  "mouseMoveAt s cb c = s
   \<or> (\<exists>cb'. mouseMoveAt s cb c = s\<lparr> currentDrawingBox := Some cb' \<rparr> \<and>
        startX cb' = startX cb \<and> startY cb' = startY cb)
   \<or> (\<exists>sb. findSelected s = Some sb \<and>
        (mouseMoveAt s cb c = moveBranch s cb (box_id sb) (the (startX cb)) c \<or>
         (\<exists>h. mouseMoveAt s cb c = resizeBranch s (box_id sb) h c)))"
proof (cases "interactionMode s = Draw \<and> i_x_min cb \<noteq> None \<and> i_y_min cb \<noteq> None")
  case True
  let ?cb' = "cb\<lparr> i_width := Some \<bar>fst c - the (i_x_min cb)\<bar>,
                  i_height := Some \<bar>snd c - the (i_y_min cb)\<bar>,
                  i_x_min := Some (min (fst c) (the (i_x_min cb))),
                  i_y_min := Some (min (snd c) (the (i_y_min cb))) \<rparr>"
  have "mouseMoveAt s cb c = s\<lparr> currentDrawingBox := Some ?cb' \<rparr> \<and>
        startX ?cb' = startX cb \<and> startY ?cb' = startY cb"
    using True by (simp add: mouseMoveAt_def drawBranch_def Let_def)
  then show ?thesis by blast
next
  case nodraw: False
  show ?thesis
  proof (cases "interactionMode s = Move \<and> truthyStr (selectedBoxId s) \<and> startX cb \<noteq> None")
    case move: True
    show ?thesis
    proof (cases "findSelected s")
      case None
      then show ?thesis using move nodraw by (simp add: mouseMoveAt_def moveBranch_def)
    next
      case (Some sb)
      then have "the (selectedBoxId s) = box_id sb" using findSelected_id by fastforce
      then show ?thesis using move nodraw Some by (simp add: mouseMoveAt_def)
    qed
  next
    case nomove: False
    show ?thesis
    proof (cases "interactionMode s = Resize \<and> truthyStr (selectedBoxId s) \<and> resizeHandle s \<noteq> None")
      case resize: True
      show ?thesis
      proof (cases "findSelected s")
        case None
        then show ?thesis using resize nomove nodraw by (simp add: mouseMoveAt_def resizeBranch_def)
      next
        case (Some sb)
        then have "the (selectedBoxId s) = box_id sb" using findSelected_id by fastforce
        then show ?thesis using resize nomove nodraw Some by (auto simp add: mouseMoveAt_def)
      qed
    next
      case False
      have "mouseMoveAt s cb c = s"
        unfolding mouseMoveAt_def using False nomove nodraw by (simp only: if_False)
      then show ?thesis by simp
    qed
  qed
qed


lemma handleMouseMove_cases:
  "handleMouseMove s ev = s \<or> (\<exists>cb c. handleMouseMove s ev = mouseMoveAt s cb c)"
  by (auto simp: handleMouseMove_def split: option.splits)

lemma mouseMoveAt_selected_valid:
  assumes "\<forall>sb. findSelected s = Some sb \<longrightarrow> validBox sb"
  shows "\<forall>sb. findSelected (mouseMoveAt s cb c) = Some sb \<longrightarrow> validBox sb"
proof -
  from mouseMoveAt_cases [of s cb c] show ?thesis
  proof (elim disjE exE conjE)
    assume "mouseMoveAt s cb c = s"
    then show ?thesis using assms by simp
  next
    fix cb'
    assume "mouseMoveAt s cb c = s\<lparr> currentDrawingBox := Some cb' \<rparr>"
    then have "findSelected (mouseMoveAt s cb c) = findSelected s"
      by (simp add: findSelected_def split: option.splits)
    then show ?thesis using assms by simp
  next
    fix sb
    assume sel: "findSelected s = Some sb"
      and mv: "mouseMoveAt s cb c = moveBranch s cb (box_id sb) (the (startX cb)) c"
    have "validBox sb" using assms sel by blast
    then show ?thesis using moveBranch_selected_valid [OF sel] mv by simp
  next
    fix sb h
    assume sel: "findSelected s = Some sb"
      and rz: "mouseMoveAt s cb c = resizeBranch s (box_id sb) h c"
    have "validBox sb" using assms sel by blast
    then show ?thesis using resizeBranch_selected_valid [OF sel] rz by simp
  qed
qed

lemma mouseMoveAt_all_valid:
  assumes valid: "\<forall>b\<in>set (boxes s). validBox b" and dist: "distinct (map box_id (boxes s))"
  shows "(\<forall>b\<in>set (boxes (mouseMoveAt s cb c)). validBox b) \<and>
         distinct (map box_id (boxes (mouseMoveAt s cb c)))"
proof -
  from mouseMoveAt_cases [of s cb c] show ?thesis
  proof (elim disjE exE conjE)
    assume "mouseMoveAt s cb c = s"
    then show ?thesis using assms by simp
  next
    fix cb'
    assume "mouseMoveAt s cb c = s\<lparr> currentDrawingBox := Some cb' \<rparr>"
    then show ?thesis using assms by simp
  next
    fix sb
    assume sel: "findSelected s = Some sb"
      and mv: "mouseMoveAt s cb c = moveBranch s cb (box_id sb) (the (startX cb)) c"
    show ?thesis
      using moveBranch_all_valid [OF valid dist sel] moveBranch_ids dist mv by simp
  next
    fix sb h
    assume sel: "findSelected s = Some sb"
      and rz: "mouseMoveAt s cb c = resizeBranch s (box_id sb) h c"
    show ?thesis
      using resizeBranch_all_valid [OF valid sel] resizeBranch_ids dist rz by simp
  qed
qed

lemma handleMouseMove_selected_valid:
  assumes "\<forall>sb. findSelected s = Some sb \<longrightarrow> validBox sb"
  shows "\<forall>sb. findSelected (handleMouseMove s ev) = Some sb \<longrightarrow> validBox sb"
proof -
  from handleMouseMove_cases [of s ev] show ?thesis
  proof (elim disjE exE)
    assume "handleMouseMove s ev = s"
    then show ?thesis using assms by simp
  next
    fix cb c
    assume "handleMouseMove s ev = mouseMoveAt s cb c"
    then show ?thesis using mouseMoveAt_selected_valid [OF assms, of cb c] by simp
  qed
qed

lemma handleMouseMove_all_valid:
  assumes "\<forall>b\<in>set (boxes s). validBox b" and "distinct (map box_id (boxes s))"
  shows "(\<forall>b\<in>set (boxes (handleMouseMove s ev)). validBox b) \<and>
         distinct (map box_id (boxes (handleMouseMove s ev)))"
proof -
  from handleMouseMove_cases [of s ev] show ?thesis
  proof (elim disjE exE)
    assume "handleMouseMove s ev = s"
    then show ?thesis using assms by simp
  next
    fix cb c
    assume "handleMouseMove s ev = mouseMoveAt s cb c"
    then show ?thesis using mouseMoveAt_all_valid [OF assms, of cb c] by simp
  qed
qed

lemma moves_selected_valid:
  "\<forall>sb. findSelected s = Some sb \<longrightarrow> validBox sb \<Longrightarrow>
   \<forall>sb. findSelected (foldl handleMouseMove s evs) = Some sb \<longrightarrow> validBox sb"
proof (induction evs arbitrary: s)
  case Nil
  then show ?case by simp
next
  case (Cons ev evs)
  show ?case
    using Cons.IH [OF handleMouseMove_selected_valid [OF Cons.prems, of ev]] by simp
qed

lemma moves_all_valid:
  "\<forall>b\<in>set (boxes s). validBox b \<Longrightarrow> distinct (map box_id (boxes s)) \<Longrightarrow>
   \<forall>b\<in>set (boxes (foldl handleMouseMove s evs)). validBox b"
proof (induction evs arbitrary: s)
  case Nil
  then show ?case by simp
next
  case (Cons ev evs)
  have step: "(\<forall>b\<in>set (boxes (handleMouseMove s ev)). validBox b) \<and>
        distinct (map box_id (boxes (handleMouseMove s ev)))"
    using handleMouseMove_all_valid [OF Cons.prems] .
  show ?case
    using Cons.IH [of "handleMouseMove s ev"] step by simp
qed

text \<open>
  Claim C1. From a box inside the unit square with positive width and height, any sequence
  of pointer moves, at client positions inside or outside the image, leaves the moved or
  resized box with \<open>0 \<le> x_min\<close>, \<open>0 \<le> y_min\<close>, \<open>x_min + width \<le> 1\<close> and
  \<open>y_min + height \<le> 1\<close>: this holds for the selected box, and for every box of the
  working set when the ids are distinct.
\<close>

theorem move_resize_keep_box_inside:
  assumes "finiteArithmetic s"
  shows "((\<forall>sb. findSelected s = Some sb \<longrightarrow> validBox sb) \<longrightarrow>
          (\<forall>sb'. findSelected (foldl handleMouseMove s evs) = Some sb' \<longrightarrow> validBox sb'))
       \<and> ((\<forall>b\<in>set (boxes s). validBox b) \<and> distinct (map box_id (boxes s)) \<longrightarrow>
          (\<forall>b\<in>set (boxes (foldl handleMouseMove s evs)). validBox b))"
  using moves_selected_valid [of s evs] moves_all_valid [of s evs] by blast


lemma moving_example_boxes: "map (\<lambda>b. (x_min b, y_min b, width b, height b)) (boxes (foldl handleMouseMove movingEditor [(1000, -50), (-20, 700)])) = [(0, 0.8, 0.2, 0.2), (0.5, 0.5, 0.5, 0.5)]"
  by (simp add: movingEditor_def exampleEditor_def exampleBox_def handleMouseMove_def getNormalizedCoords_def mouseMoveAt_def truthyStr_def moveBranch_def emptyInteraction_def findSelected_def Let_def)

theorem move_resize_keep_box_inside_witness:
  "finiteArithmetic movingEditor
   \<and> list_all validBox (boxes movingEditor) \<and> distinct (map box_id (boxes movingEditor))
   \<and> findSelected movingEditor = Some (exampleBox ''a'' 0.1 0.1 0.2 0.2)
   \<and> (\<exists>sb'. findSelected (foldl handleMouseMove movingEditor [(1000, -50), (-20, 700)]) = Some sb'
         \<and> validBox sb')
   \<and> list_all validBox (boxes (foldl handleMouseMove movingEditor [(1000, -50), (-20, 700)]))"
proof -
  have fa: "finiteArithmetic movingEditor"
    by (simp add: finiteArithmetic_def movingEditor_def exampleEditor_def emptyInteraction_def)
  have v: "\<forall>b\<in>set (boxes movingEditor). validBox b"
    by (simp add: movingEditor_def exampleEditor_def exampleBox_def validBox_def)
  have d: "distinct (map box_id (boxes movingEditor))"
    by (simp add: movingEditor_def exampleEditor_def exampleBox_def)
  have f: "findSelected movingEditor = Some (exampleBox ''a'' 0.1 0.1 0.2 0.2)"
    by (simp add: movingEditor_def exampleEditor_def exampleBox_def findSelected_def)
  have sv: "\<forall>sb. findSelected movingEditor = Some sb \<longrightarrow> validBox sb"
    unfolding f by (simp add: exampleBox_def validBox_def)
  note inst = move_resize_keep_box_inside [OF fa, of "[(1000, -50), (-20, 700)]"]
  have a: "\<forall>sb'. findSelected (foldl handleMouseMove movingEditor [(1000, -50), (-20, 700)]) = Some sb'
         \<longrightarrow> validBox sb'"
    by (rule conjunct1 [OF inst, THEN mp, OF sv])
  have "findSelected (foldl handleMouseMove movingEditor [(1000, -50), (-20, 700)]) \<noteq> None"
    by (simp add: movingEditor_def exampleEditor_def exampleBox_def handleMouseMove_def
        getNormalizedCoords_def mouseMoveAt_def truthyStr_def moveBranch_def emptyInteraction_def
        findSelected_def Let_def)
  then have a': "\<exists>sb'. findSelected (foldl handleMouseMove movingEditor [(1000, -50), (-20, 700)]) = Some sb'
         \<and> validBox sb'"
    using a by blast
  have b: "\<forall>b\<in>set (boxes (foldl handleMouseMove movingEditor [(1000, -50), (-20, 700)])). validBox b"
    by (rule conjunct2 [OF inst, THEN mp, OF conjI [OF v d]])
  show ?thesis using fa v d f a' b by (simp only: list_all_iff simp_thms)
qed

subsection \<open>Drawing, display and resize handles\<close>

lemmas example_defs = exampleEditor_def exampleBox_def emptyInteraction_def spreadBox_def
  initialLabelColors_def

lemmas pointer_defs = handleMouseDown_def handleMouseMove_def mouseMoveAt_def
  getNormalizedCoords_def drawBranch_def moveBranch_def resizeBranch_def findSelected_def
  truthyStr_def truthyNum_def Let_def

text \<open>
  Claim C3 says that after every pointer move of a Draw gesture the in-progress box spans
  the press point and the current point. The handler reads the press point from the
  \<open>x_min\<close>, \<open>y_min\<close> it overwrites on every move: press at \<open>(0.5, 0.5)\<close>, move to
  \<open>(0.4, 0.4)\<close>, then to \<open>(0.3, 0.3)\<close>; the box has \<open>x_min = 0.3\<close> and width \<open>0.1\<close>, where
  the claim asks for width \<open>|0.3 - 0.5| = 0.2\<close>.
\<close>

theorem draw_forgets_press_point:
  "getNormalizedCoords drawingEditor 200 150 = Some (0.5, 0.5)
   \<and> getNormalizedCoords drawingEditor 120 90 = Some (0.3, 0.3)
   \<and> map_option i_x_min (currentDrawingBox
        (foldl handleMouseMove (handleMouseDown drawingEditor 200 150) [(160, 120), (120, 90)]))
       = Some (Some 0.3)
   \<and> map_option i_width (currentDrawingBox
        (foldl handleMouseMove (handleMouseDown drawingEditor 200 150) [(160, 120), (120, 90)]))
       = Some (Some 0.1)
   \<and> \<bar>0.3 - 0.5\<bar> = (0.2 :: real)"
  by (simp add: drawingEditor_def example_defs pointer_defs)

text \<open>
  Claim C2 says that every box inside the unit square, taken to display coordinates and
  back, is reproduced. A box on the left edge (\<open>x_min = 0\<close>) has no display rectangle at
  all in a 400 by 300 container, so there is nothing to take back. Away from the zero
  coordinates the round trip is exact (\<open>roundtrip_off_the_edges\<close>).
\<close>

theorem edge_box_has_no_display_rect:
  "validBox (exampleBox ''a'' 0 0.25 0.5 0.5)
   \<and> rs_width (imageRenderSize drawingEditor) * rs_height (imageRenderSize drawingEditor) = 120000
   \<and> toDisplayCoordsBox (imageRenderSize drawingEditor) (exampleBox ''a'' 0 0.25 0.5 0.5) = None"
  by (simp add: drawingEditor_def example_defs validBox_def toDisplayCoordsBox_def
      toDisplayCoords_def truthyNum_def)

lemma roundtrip_off_the_edges:
  assumes "x_min b \<noteq> 0" and "y_min b \<noteq> 0" and "width b \<noteq> 0" and "height b \<noteq> 0"
    and "validBox b" and "rs_width (imageRenderSize s) \<noteq> 0" and "rs_height (imageRenderSize s) \<noteq> 0"
    and "svgRect s = Some (rectLeft, rectTop)"
  shows "\<exists>d. toDisplayCoordsBox (imageRenderSize s) b = Some d \<and>
           getNormalizedCoords s (rectLeft + d_x d) (rectTop + d_y d) = Some (x_min b, y_min b) \<and>
           getNormalizedCoords s (rectLeft + d_x d + d_width d) (rectTop + d_y d + d_height d)
             = Some (x_min b + width b, y_min b + height b)"
  using assms
  by (simp add: toDisplayCoordsBox_def toDisplayCoords_def spreadBox_def emptyInteraction_def
      truthyNum_def getNormalizedCoords_def validBox_def add_divide_distrib flip: distrib_right)

text \<open>
  Claim C4 says that every handle moves its own edges to the pointer. The editor offers
  the handles \<open>nw\<close>, \<open>ne\<close>, \<open>sw\<close> and \<open>se\<close> of the selected box; pressing the \<open>nw\<close> handle of
  the box \<open>(0.2, 0.2, 0.4, 0.4)\<close> at its centre \<open>(80, 60)\<close> starts a resize with that handle,
  and moving the pointer to \<open>(40, 30)\<close>, the normalized point \<open>(0.1, 0.1)\<close>, leaves the box
  where it is: \<open>x_min\<close> and \<open>y_min\<close> are \<open>0.2\<close>, not \<open>0.1\<close>, and width and height stay
  \<open>0.4\<close>, though the claim keeps \<open>x_min + width\<close> fixed while \<open>x_min\<close> follows the pointer.
\<close>

theorem nw_handle_leaves_box_in_place:
  "getHandlePositions (imageRenderSize nwEditor) (exampleBox ''a'' 0.2 0.2 0.4 0.4)
     = [(NW, 80, 60), (NE, 240, 60), (SW, 80, 180), (SE, 240, 180)]
   \<and> interactionMode (onHandleMouseDown nwEditor (exampleBox ''a'' 0.2 0.2 0.4 0.4) NW 80 60) = Resize
   \<and> resizeHandle (onHandleMouseDown nwEditor (exampleBox ''a'' 0.2 0.2 0.4 0.4) NW 80 60) = Some NW
   \<and> getNormalizedCoords (onHandleMouseDown nwEditor (exampleBox ''a'' 0.2 0.2 0.4 0.4) NW 80 60) 40 30
       = Some (0.1, 0.1)
   \<and> map x_min (boxes (handleMouseMove
         (onHandleMouseDown nwEditor (exampleBox ''a'' 0.2 0.2 0.4 0.4) NW 80 60) (40, 30))) = [0.2]
   \<and> map y_min (boxes (handleMouseMove
         (onHandleMouseDown nwEditor (exampleBox ''a'' 0.2 0.2 0.4 0.4) NW 80 60) (40, 30))) = [0.2]
   \<and> map width (boxes (handleMouseMove
         (onHandleMouseDown nwEditor (exampleBox ''a'' 0.2 0.2 0.4 0.4) NW 80 60) (40, 30))) = [0.4]
   \<and> map height (boxes (handleMouseMove
         (onHandleMouseDown nwEditor (exampleBox ''a'' 0.2 0.2 0.4 0.4) NW 80 60) (40, 30))) = [0.4]
   \<and> map x_min (boxes (handleMouseMove
         (onHandleMouseDown nwEditor (exampleBox ''a'' 0.2 0.2 0.4 0.4) NW 80 60) (40, 30))) \<noteq> [0.1]"
  by (simp add: nwEditor_def example_defs pointer_defs onHandleMouseDown_def
      getHandlePositions_def toDisplayCoordsBox_def toDisplayCoords_def)

text \<open>The same holds for every handle but \<open>se\<close> and every pointer position: the geometry of
  a box inside the unit square is written back as it was.\<close>

lemma other_handles_keep_geometry:
  assumes "interactionMode s = Resize" and "resizeHandle s = Some h" and "h \<noteq> SE"
    and "findSelected s = Some sb" and "box_id sb \<noteq> []"
    and "x_min sb + width sb \<le> 1" and "y_min sb + height sb \<le> 1"
  shows "\<exists>sb'. findSelected (handleMouseMove s ev) = Some sb' \<and>
           x_min sb' = x_min sb \<and> y_min sb' = y_min sb \<and>
           width sb' = width sb \<and> height sb' = height sb"
proof -
  from handleMouseMove_cases [of s ev] show ?thesis
  proof (elim disjE exE)
    assume "handleMouseMove s ev = s"
    then show ?thesis using assms(4) by simp
  next
    fix cb c
    assume "handleMouseMove s ev = mouseMoveAt s cb c"
    then show ?thesis
      using assms mouseMoveAt_resize [OF assms(1,2,4,5), of cb c]
        resizeBranch_selected [OF assms(4), of h c]
      by (simp add: Let_def)
  qed
qed

text \<open>
  Claim C9 says that dragging the \<open>se\<close> handle of the box \<open>(0.1, 0.1, 0.2, 0.2)\<close> to the
  normalized point \<open>(0.05, 0.4)\<close> gives width \<open>0.01\<close> and height \<open>0.3\<close>. The \<open>se\<close> corner is
  at \<open>(120, 90)\<close>; a press at \<open>(125, 94)\<close>, beside the handle's circle of radius \<open>5\<close>, is
  taken by the hit test of \<open>handleMouseDown\<close>, which starts a resize with the \<open>se\<close> handle
  but stores no \<open>currentDrawingBox\<close>. The move to \<open>(20, 120)\<close>, the point \<open>(0.05, 0.4)\<close>, is
  then ignored: width and height stay \<open>0.2\<close>.
\<close>

theorem se_hit_test_resize_ignores_pointer:
  "interactionMode (handleMouseDown seEditor 125 94) = Resize
   \<and> resizeHandle (handleMouseDown seEditor 125 94) = Some SE
   \<and> currentDrawingBox (handleMouseDown seEditor 125 94) = None
   \<and> getNormalizedCoords (handleMouseDown seEditor 125 94) 20 120 = Some (0.05, 0.4)
   \<and> map width (boxes (handleMouseMove (handleMouseDown seEditor 125 94) (20, 120))) = [0.2]
   \<and> map height (boxes (handleMouseMove (handleMouseDown seEditor 125 94) (20, 120))) = [0.2]
   \<and> map width (boxes (handleMouseMove (handleMouseDown seEditor 125 94) (20, 120))) \<noteq> [0.01]
   \<and> map height (boxes (handleMouseMove (handleMouseDown seEditor 125 94) (20, 120))) \<noteq> [0.3]"
  by (simp add: seEditor_def example_defs pointer_defs onSeHandle_def)

text \<open>Pressed on its circle, the \<open>se\<close> handle does what the claim says, and an \<open>se\<close> resize
  never leaves a box with a corner left of and above \<open>1\<close> without extent.\<close>

lemma se_resize_from_handle_circle:
  "map (\<lambda>b. (x_min b, y_min b, width b, height b))
     (boxes (handleMouseMove
        (onHandleMouseDown seEditor (exampleBox ''a'' 0.1 0.1 0.2 0.2) SE 120 90) (20, 120)))
   = [(0.1, 0.1, 0.01, 0.3)]"
  by (simp add: seEditor_def example_defs pointer_defs onHandleMouseDown_def)

lemma se_resize_positive_extent:
  assumes "interactionMode s = Resize" and "resizeHandle s = Some SE"
    and "findSelected s = Some sb" and "box_id sb \<noteq> []"
    and "0 < width sb" and "0 < height sb" and "x_min sb < 1" and "y_min sb < 1"
    and "rs_height (imageRenderSize s) \<noteq> 0"
  shows "\<exists>sb'. findSelected (handleMouseMove s ev) = Some sb' \<and>
           0 < width sb' \<and> 0 < height sb' \<and> x_min sb' = x_min sb \<and> y_min sb' = y_min sb"
proof -
  from handleMouseMove_cases [of s ev] show ?thesis
  proof (elim disjE exE)
    assume "handleMouseMove s ev = s"
    then show ?thesis using assms by simp
  next
    fix cb c
    assume "handleMouseMove s ev = mouseMoveAt s cb c"
    then show ?thesis
      using assms mouseMoveAt_resize [OF assms(1-4), of cb c]
        resizeBranch_selected [OF assms(3), of SE c]
      by (simp add: Let_def less_max_iff_disj)
  qed
qed

lemma handleMouseDown_draw:
  assumes "interactionMode s = Draw"
  shows "boxes (handleMouseDown s px py) = boxes s \<and> interactionMode (handleMouseDown s px py) = Draw
         \<and> svgRect (handleMouseDown s px py) = svgRect s
         \<and> imageRenderSize (handleMouseDown s px py) = imageRenderSize s"
  using assms by (simp add: handleMouseDown_def split: option.splits)

lemma handleMouseMove_draw:
  assumes "interactionMode s = Draw"
  shows "boxes (handleMouseMove s q) = boxes s \<and> interactionMode (handleMouseMove s q) = Draw
         \<and> svgRect (handleMouseMove s q) = svgRect s
         \<and> imageRenderSize (handleMouseMove s q) = imageRenderSize s"
  using assms
  by (simp add: handleMouseMove_def mouseMoveAt_def drawBranch_def Let_def split: option.splits)

lemma moves_draw:
  "interactionMode s = Draw \<Longrightarrow>
   boxes (foldl handleMouseMove s qs) = boxes s \<and> interactionMode (foldl handleMouseMove s qs) = Draw"
proof (induction qs arbitrary: s)
  case Nil
  then show ?case by simp
next
  case (Cons q qs)
  then show ?case using handleMouseMove_draw [of s q] by simp
qed

lemma handleMouseUp_zeroExtent:
  assumes "zeroExtent s"
  shows "boxes (handleMouseUp pal promptResult uuid s) = boxes s"
  using assms
  by (auto simp: handleMouseUp_def commitDrawing_def zeroExtent_def Let_def split: option.splits)

lemma handleMouseDown_pressedAt:
  assumes "interactionMode s = Draw" and "getNormalizedCoords s px py = Some c"
  shows "pressedAt (handleMouseDown s px py) c"
  using assms by (simp add: handleMouseDown_def pressedAt_def)

lemma getNormalizedCoords_cong:
  "svgRect s' = svgRect s \<Longrightarrow> imageRenderSize s' = imageRenderSize s \<Longrightarrow>
   getNormalizedCoords s' x y = getNormalizedCoords s x y"
  by (simp add: getNormalizedCoords_def Let_def split: option.splits cong: if_cong)

lemma handleMouseMove_pressedAt:
  assumes "interactionMode s = Draw" and "pressedAt s c"
    and "getNormalizedCoords s (fst q) (snd q) = Some c"
  shows "pressedAt (handleMouseMove s q) c"
proof -
  obtain cb where cb: "currentDrawingBox s = Some cb" "i_x_min cb = Some (fst c)"
      "i_y_min cb = Some (snd c)"
    using assms(2) by (auto simp: pressedAt_def split: option.splits)
  have "handleMouseMove s q = drawBranch s cb (fst c) (snd c) c"
    using assms(1,3) cb by (simp add: handleMouseMove_def mouseMoveAt_def)
  then show ?thesis by (simp add: drawBranch_def pressedAt_def Let_def)
qed

lemma moves_pressedAt:
  "interactionMode s = Draw \<Longrightarrow> pressedAt s c \<Longrightarrow>
   \<forall>q\<in>set qs. getNormalizedCoords s (fst q) (snd q) = Some c \<Longrightarrow>
   pressedAt (foldl handleMouseMove s qs) c"
proof (induction qs arbitrary: s)
  case Nil
  then show ?case by simp
next
  case (Cons q qs)
  have m: "interactionMode (handleMouseMove s q) = Draw"
    using handleMouseMove_draw [OF Cons.prems(1)] by simp
  have p: "pressedAt (handleMouseMove s q) c"
    using handleMouseMove_pressedAt [OF Cons.prems(1,2)] Cons.prems(3) by simp
  have "getNormalizedCoords (handleMouseMove s q) x y = getNormalizedCoords s x y" for x y
    using handleMouseMove_draw [OF Cons.prems(1), of q]
    by (intro getNormalizedCoords_cong) simp_all
  then have "\<forall>r\<in>set qs. getNormalizedCoords (handleMouseMove s q) (fst r) (snd r) = Some c"
    using Cons.prems(3) by simp
  then show ?case using Cons.IH [OF m p] by simp
qed

lemma pressedAt_zeroExtent: "pressedAt s c \<Longrightarrow> zeroExtent s"
  by (auto simp: pressedAt_def zeroExtent_def truthyNum_def split: option.splits)

text \<open>
  Claim C8 says that a Draw gesture released where it was pressed adds no box. Press at
  \<open>(200, 150)\<close>, the point \<open>(0.5, 0.5)\<close>, move to \<open>(160, 120)\<close>, move back to \<open>(200, 150)\<close> and
  release: the second move measures against the \<open>x_min\<close>, \<open>y_min\<close> that the first one
  overwrote, the drawing is \<open>(0.4, 0.4, 0.1, 0.1)\<close>, and with the label \<open>cat\<close> entered in the
  prompt \<open>handleMouseUp\<close> appends it as a second box.
\<close>

theorem draw_back_to_press_point_adds_box:
  "getNormalizedCoords drawingEditor 200 150 = Some (0.5, 0.5)
   \<and> interactionMode drawingEditor = Draw
   \<and> map box_id (boxes drawingEditor) = [''a'']
   \<and> map box_id (boxes (handleMouseUp [''#f00''] (Some ''cat'') ''u1''
         (foldl handleMouseMove (handleMouseDown drawingEditor 200 150) [(160, 120), (200, 150)])))
       = [''a'', ''u1'']
   \<and> map x_min (boxes (handleMouseUp [''#f00''] (Some ''cat'') ''u1''
         (foldl handleMouseMove (handleMouseDown drawingEditor 200 150) [(160, 120), (200, 150)])))
       = [0.1, 0.4]
   \<and> map width (boxes (handleMouseUp [''#f00''] (Some ''cat'') ''u1''
         (foldl handleMouseMove (handleMouseDown drawingEditor 200 150) [(160, 120), (200, 150)])))
       = [0.2, 0.1]
   \<and> map height (boxes (handleMouseUp [''#f00''] (Some ''cat'') ''u1''
         (foldl handleMouseMove (handleMouseDown drawingEditor 200 150) [(160, 120), (200, 150)])))
       = [0.2, 0.1]
   \<and> boxes (handleMouseUp [''#f00''] (Some ''cat'') ''u1''
         (foldl handleMouseMove (handleMouseDown drawingEditor 200 150) [(160, 120), (200, 150)]))
       \<noteq> boxes drawingEditor"
  by (simp add: drawingEditor_def example_defs pointer_defs handleMouseUp_def commitDrawing_def
      getLabelColor_def palette_at_def)

text \<open>What does hold: a release with a drawing of zero width or zero height adds no box,
  and a gesture that never leaves the press point ends that way.\<close>

lemma zero_extent_release_adds_no_box:
  assumes "interactionMode s = Draw"
  shows "(zeroExtent (foldl handleMouseMove (handleMouseDown s px py) qs) \<longrightarrow>
            boxes (handleMouseUp pal promptResult uuid
                     (foldl handleMouseMove (handleMouseDown s px py) qs)) = boxes s)
       \<and> (getNormalizedCoords s px py \<noteq> None \<and>
          (\<forall>q\<in>set qs. getNormalizedCoords s (fst q) (snd q) = getNormalizedCoords s px py) \<longrightarrow>
            boxes (handleMouseUp pal promptResult uuid
                     (foldl handleMouseMove (handleMouseDown s px py) qs)) = boxes s)"
proof (intro conjI impI)
  let ?d = "handleMouseDown s px py"
  let ?s' = "foldl handleMouseMove ?d qs"
  have d: "interactionMode ?d = Draw" and bd: "boxes ?d = boxes s"
    using handleMouseDown_draw [OF assms] by simp_all
  have bs: "boxes ?s' = boxes s"
    using moves_draw [OF d, of qs] bd by simp
  {
    assume "zeroExtent ?s'"
    then show "boxes (handleMouseUp pal promptResult uuid ?s') = boxes s"
      using handleMouseUp_zeroExtent bs by simp
  }
  {
    assume h: "getNormalizedCoords s px py \<noteq> None \<and>
          (\<forall>q\<in>set qs. getNormalizedCoords s (fst q) (snd q) = getNormalizedCoords s px py)"
    then obtain c where c: "getNormalizedCoords s px py = Some c" by blast
    have p: "pressedAt ?d c"
      using handleMouseDown_pressedAt [OF assms c] .
    have "getNormalizedCoords ?d x y = getNormalizedCoords s x y" for x y
      using handleMouseDown_draw [OF assms, of px py]
      by (intro getNormalizedCoords_cong) simp_all
    then have "\<forall>q\<in>set qs. getNormalizedCoords ?d (fst q) (snd q) = Some c"
      using h c by simp
    then have "pressedAt ?s' c"
      using moves_pressedAt [OF d p] by simp
    then have "zeroExtent ?s'" by (rule pressedAt_zeroExtent)
    then show "boxes (handleMouseUp pal promptResult uuid ?s') = boxes s"
      using handleMouseUp_zeroExtent bs by simp
  }
qed

subsection \<open>Label colours\<close>

lemma getLabelColor_seen:
  "labelColorMap st l = Some c \<Longrightarrow> getLabelColor pal st l = (c, st)"
  by (simp add: getLabelColor_def)

lemma getLabelColor_new:
  "labelColorMap st l = None \<Longrightarrow>
   getLabelColor pal st l =
     (palette_at pal (colorIndex st),
      \<lparr> labelColorMap = (labelColorMap st)(l \<mapsto> palette_at pal (colorIndex st)),
        colorIndex = colorIndex st + 1 \<rparr>)"
  by (simp add: getLabelColor_def)

lemma getLabelColor_stored:
  "labelColorMap (snd (getLabelColor pal st l)) l = Some (fst (getLabelColor pal st l))"
  by (cases "labelColorMap st l") (simp_all add: getLabelColor_new getLabelColor_seen)

lemma getLabelColor_keeps:
  "labelColorMap st k = Some c \<Longrightarrow> labelColorMap (snd (getLabelColor pal st l)) k = Some c"
  by (cases "labelColorMap st l") (auto simp: getLabelColor_new getLabelColor_seen)

lemma colorsFor_keeps:
  "labelColorMap st k = Some c \<Longrightarrow> labelColorMap (snd (colorsFor pal st ls)) k = Some c"
proof (induction ls arbitrary: st)
  case Nil
  then show ?case by simp
next
  case (Cons l ls)
  show ?case
    using Cons.IH [OF getLabelColor_keeps [OF Cons.prems, of pal l]]
    by (simp add: split_beta)
qed

lemma getLabelColor_counted:
  assumes "counted st"
  shows "counted (snd (getLabelColor pal st l)) \<and>
         dom (labelColorMap (snd (getLabelColor pal st l))) = insert l (dom (labelColorMap st))"
proof (cases "labelColorMap st l")
  case None
  then have "l \<notin> dom (labelColorMap st)" by (simp add: domIff)
  then show ?thesis using assms None by (simp add: getLabelColor_new counted_def)
next
  case (Some c)
  then have "l \<in> dom (labelColorMap st)" by (simp add: domIff)
  then show ?thesis using assms Some by (simp add: getLabelColor_seen insert_absorb)
qed

lemma colorsFor_counted:
  "counted st \<Longrightarrow>
   counted (snd (colorsFor pal st ls)) \<and>
   dom (labelColorMap (snd (colorsFor pal st ls))) = dom (labelColorMap st) \<union> set ls"
proof (induction ls arbitrary: st)
  case Nil
  then show ?case by simp
next
  case (Cons l ls)
  have step: "counted (snd (getLabelColor pal st l))"
    and d: "dom (labelColorMap (snd (getLabelColor pal st l))) = insert l (dom (labelColorMap st))"
    using getLabelColor_counted [OF Cons.prems] by simp_all
  show ?case using Cons.IH [OF step] d by (simp add: split_beta)
qed

lemma counted_initial: "counted initialLabelColors"
  by (simp add: counted_def initialLabelColors_def)

lemma reset_is_initial: "resetLabelColors st = initialLabelColors"
  by (simp add: resetLabelColors_def initialLabelColors_def)

lemma colorsFor_fresh:
  "counted st \<Longrightarrow> distinct ls \<Longrightarrow> set ls \<inter> dom (labelColorMap st) = {} \<Longrightarrow>
   fst (colorsFor pal st ls) = map (palette_at pal) [colorIndex st ..< colorIndex st + length ls]"
proof (induction ls arbitrary: st)
  case Nil
  then show ?case by simp
next
  case (Cons l ls)
  have none: "labelColorMap st l = None" using Cons.prems(3) by (auto simp: domIff)
  let ?st1 = "snd (getLabelColor pal st l)"
  have c1: "counted ?st1" and d1: "dom (labelColorMap ?st1) = insert l (dom (labelColorMap st))"
    using getLabelColor_counted [OF Cons.prems(1)] by simp_all
  have i1: "colorIndex ?st1 = colorIndex st + 1" using none by (simp add: getLabelColor_new)
  have "set ls \<inter> dom (labelColorMap ?st1) = {}" using Cons.prems(2,3) d1 by auto
  then have "fst (colorsFor pal ?st1 ls) = map (palette_at pal) [colorIndex ?st1 ..< colorIndex ?st1 + length ls]"
    using Cons.IH [OF c1] Cons.prems(2) by simp
  then show ?case
    using none i1 by (simp add: split_beta getLabelColor_new upt_conv_Cons del: upt_Suc)
qed

text \<open>
  Claim C7. Within an epoch a label keeps the colour of its first call, whatever calls
  come in between; a label not seen since the reset gets \<open>palette[count mod size]\<close>,
  \<open>count\<close> being the number of distinct labels seen since the reset; and after a reset
  the same labels give the same colours as from the initial state, the \<open>k\<close>-th new label
  getting \<open>palette[k mod size]\<close>.
\<close>

theorem label_colors_per_epoch:
  "fst (getLabelColor pal (snd (colorsFor pal (snd (getLabelColor pal st l)) ls)) l)
     = fst (getLabelColor pal st l)
   \<and> (l \<notin> set ls \<longrightarrow>
        fst (getLabelColor pal (snd (colorsFor pal (resetLabelColors st) ls)) l)
          = palette_at pal (card (set ls)))
   \<and> (distinct ls \<longrightarrow>
        fst (colorsFor pal (resetLabelColors st) ls) = map (palette_at pal) [0 ..< length ls])
   \<and> colorsFor pal (resetLabelColors st) ls = colorsFor pal initialLabelColors ls"
proof (intro conjI impI)
  show "fst (getLabelColor pal (snd (colorsFor pal (snd (getLabelColor pal st l)) ls)) l)
     = fst (getLabelColor pal st l)"
    using colorsFor_keeps [OF getLabelColor_stored [of pal st l], of pal ls]
    by (simp add: getLabelColor_seen)
next
  assume new: "l \<notin> set ls"
  let ?st = "snd (colorsFor pal initialLabelColors ls)"
  have "counted ?st" and "dom (labelColorMap ?st) = set ls"
    using colorsFor_counted [OF counted_initial, of pal ls] by (simp_all add: initialLabelColors_def)
  then have "labelColorMap ?st l = None" and "colorIndex ?st = card (set ls)"
    using new by (auto simp: counted_def domIff)
  then show "fst (getLabelColor pal (snd (colorsFor pal (resetLabelColors st) ls)) l)
          = palette_at pal (card (set ls))"
    by (simp add: reset_is_initial getLabelColor_new)
next
  assume "distinct ls"
  then show "fst (colorsFor pal (resetLabelColors st) ls) = map (palette_at pal) [0 ..< length ls]"
    using colorsFor_fresh [OF counted_initial, of ls pal]
    by (simp add: reset_is_initial initialLabelColors_def)
next
  show "colorsFor pal (resetLabelColors st) ls = colorsFor pal initialLabelColors ls"
    by (simp add: reset_is_initial)
qed

theorem label_colors_per_epoch_witness:
  "''bird'' \<notin> set [''cat'', ''dog'', ''cat'']
   \<and> fst (getLabelColor [''red'', ''green'']
        (snd (colorsFor [''red'', ''green'']
               (resetLabelColors (snd (getLabelColor [''red'', ''green''] initialLabelColors ''old'')))
               [''cat'', ''dog'', ''cat''])) ''bird'') = Some ''red''
   \<and> fst (colorsFor [''red'', ''green'']
        (resetLabelColors (snd (getLabelColor [''red'', ''green''] initialLabelColors ''old'')))
        [''cat'', ''dog'', ''bird'']) = [Some ''red'', Some ''green'', Some ''red'']"
proof -
  note inst1 = label_colors_per_epoch [of "[''red'', ''green'']"
      "snd (getLabelColor [''red'', ''green''] initialLabelColors ''old'')" "''bird''"
      "[''cat'', ''dog'', ''cat'']"]
  note inst2 = label_colors_per_epoch [of "[''red'', ''green'']"
      "snd (getLabelColor [''red'', ''green''] initialLabelColors ''old'')" "''bird''"
      "[''cat'', ''dog'', ''bird'']"]
  have n: "''bird'' \<notin> set [''cat'', ''dog'', ''cat'']" by simp
  have d: "distinct [''cat'', ''dog'', ''bird'']" by simp
  have c: "card (set [''cat'', ''dog'', ''cat'']) = 2" by (simp add: card_insert_if)
  have p: "palette_at [''red'', ''green''] 2 = Some ''red''"
    by code_simp
  have q: "map (palette_at [''red'', ''green'']) [0 ..< length [''cat'', ''dog'', ''bird'']]
           = [Some ''red'', Some ''green'', Some ''red'']"
    by code_simp
  have "fst (getLabelColor [''red'', ''green'']
        (snd (colorsFor [''red'', ''green'']
               (resetLabelColors (snd (getLabelColor [''red'', ''green''] initialLabelColors ''old'')))
               [''cat'', ''dog'', ''cat''])) ''bird'')
        = palette_at [''red'', ''green''] (card (set [''cat'', ''dog'', ''cat'']))"
    by (rule conjunct1 [OF conjunct2 [OF inst1], THEN mp, OF n])
  then have a: "fst (getLabelColor [''red'', ''green'']
        (snd (colorsFor [''red'', ''green'']
               (resetLabelColors (snd (getLabelColor [''red'', ''green''] initialLabelColors ''old'')))
               [''cat'', ''dog'', ''cat''])) ''bird'') = Some ''red''"
    by (simp only: c p)
  have "fst (colorsFor [''red'', ''green'']
        (resetLabelColors (snd (getLabelColor [''red'', ''green''] initialLabelColors ''old'')))
        [''cat'', ''dog'', ''bird''])
        = map (palette_at [''red'', ''green'']) [0 ..< length [''cat'', ''dog'', ''bird'']]"
    by (rule conjunct1 [OF conjunct2 [OF conjunct2 [OF inst2]], THEN mp, OF d])
  then have b: "fst (colorsFor [''red'', ''green'']
        (resetLabelColors (snd (getLabelColor [''red'', ''green''] initialLabelColors ''old'')))
        [''cat'', ''dog'', ''bird'']) = [Some ''red'', Some ''green'', Some ''red'']"
    by (simp only: q)
  show ?thesis using n a b by (intro conjI)
qed

subsection \<open>Assisted annotations\<close>

lemma validateEntries_wellFormed:
  "\<forall>r\<in>set rs. wellFormed r \<Longrightarrow>
   validateEntries uuids k (map RObj rs)
     = Inr (map2 (\<lambda>i r. assistedBox (uuids i) r) [k ..< k + length rs] rs)"
proof (induction rs arbitrary: k)
  case Nil
  then show ?case by simp
next
  case (Cons r rs)
  have "validateEntries uuids (k + 1) (map RObj rs)
     = Inr (map2 (\<lambda>i r. assistedBox (uuids i) r) [k + 1 ..< k + 1 + length rs] rs)"
    using Cons.IH [of "k + 1"] Cons.prems by simp
  then show ?case using Cons.prems by (simp add: upt_conv_Cons del: upt_Suc)
qed

lemma withColors_length: "length (fst (withColors pal st bs)) = length bs"
  by (induction bs arbitrary: st) (simp_all add: split_beta)

lemma withColors_map:
  assumes "\<And>b c. f (b\<lparr> color := c \<rparr>) = f b"
  shows "map f (fst (withColors pal st bs)) = map f bs"
  by (induction bs arbitrary: st) (simp_all add: split_beta assms)

lemma assistInEditor_success:
  assumes "trim (assistPrompt s) \<noteq> []" and "\<forall>r\<in>set rs. wellFormed r"
  shows "boxes (assistInEditor pal True uuids (Entries (map RObj rs)) s)
         = boxes s @ fst (withColors pal (labelColors s)
                           (map2 (\<lambda>i r. assistedBox (uuids i) r) [0 ..< length rs] rs))"
  using assms validateEntries_wellFormed [OF assms(2), of uuids 0]
  by (simp add: assistInEditor_def generateAssistedAnnotations_def handleGeminiAssistRequest_def
      split_beta)

lemma map2_fst_fun: "length xs = length ys \<Longrightarrow> map2 (\<lambda>i r. g i) xs ys = map g xs"
  by (induction xs ys rule: list_induct2) simp_all

lemma map2_snd_fun: "length xs = length ys \<Longrightarrow> map2 (\<lambda>i r. g r) xs ys = map g ys"
  by (induction xs ys rule: list_induct2) simp_all

text \<open>
  Claim C5. With a non-blank prompt and a response of well-formed entries, the assist
  merge appends: the boxes that were there are the first boxes of the result, unchanged;
  one box is added per entry, in order, with the id \<open>crypto.randomUUID()\<close> returned for
  it, the source \<open>gemini-assisted\<close> and the label and geometry of the entry; nothing is
  dropped, whatever overlaps. When the generated ids are distinct and none is in use, the
  ids of the result are distinct. One human-added box and two entries give three boxes.
\<close>

theorem assist_merge_appends:
  assumes "trim (assistPrompt s) \<noteq> []" and "\<forall>r\<in>set rs. wellFormed r"
  shows "take (length (boxes s)) (boxes (assistInEditor pal True uuids (Entries (map RObj rs)) s))
           = boxes s
       \<and> length (boxes (assistInEditor pal True uuids (Entries (map RObj rs)) s))
           = length (boxes s) + length rs
       \<and> map box_id (drop (length (boxes s))
            (boxes (assistInEditor pal True uuids (Entries (map RObj rs)) s)))
           = map uuids [0 ..< length rs]
       \<and> map source (drop (length (boxes s))
            (boxes (assistInEditor pal True uuids (Entries (map RObj rs)) s)))
           = replicate (length rs) GeminiAssisted
       \<and> map (\<lambda>b. (label b, x_min b, y_min b, width b, height b)) (drop (length (boxes s))
            (boxes (assistInEditor pal True uuids (Entries (map RObj rs)) s)))
           = map (\<lambda>r. (strOf (r_label r), numOf (r_x_min r), numOf (r_y_min r),
                        numOf (r_width r), numOf (r_height r))) rs
       \<and> (distinct (map box_id (boxes s)) \<and> distinct (map uuids [0 ..< length rs]) \<and>
          set (map uuids [0 ..< length rs]) \<inter> set (map box_id (boxes s)) = {} \<longrightarrow>
          distinct (map box_id (boxes (assistInEditor pal True uuids (Entries (map RObj rs)) s))))"
proof -
  let ?new = "map2 (\<lambda>i r. assistedBox (uuids i) r) [0 ..< length rs] rs"
  let ?col = "fst (withColors pal (labelColors s) ?new)"
  have eq: "boxes (assistInEditor pal True uuids (Entries (map RObj rs)) s) = boxes s @ ?col"
    using assistInEditor_success [OF assms] .
  have len: "length ?col = length rs"
    by (simp add: withColors_length)
  have ids: "map box_id ?col = map uuids [0 ..< length rs]"
  proof -
    have "map box_id ?col = map box_id ?new" by (rule withColors_map) simp
    also have "\<dots> = map2 (\<lambda>i r. uuids i) [0 ..< length rs] rs"
      by (simp add: assistedBox_def split_beta)
    also have "\<dots> = map uuids [0 ..< length rs]" by (rule map2_fst_fun) simp
    finally show ?thesis .
  qed
  have src: "map source ?col = replicate (length rs) GeminiAssisted"
  proof -
    have "map source ?col = map source ?new" by (rule withColors_map) simp
    also have "\<dots> = map2 (\<lambda>i r. GeminiAssisted) [0 ..< length rs] rs"
      by (simp add: assistedBox_def split_beta)
    also have "\<dots> = map (\<lambda>r. GeminiAssisted) rs" by (rule map2_snd_fun) simp
    also have "\<dots> = replicate (length rs) GeminiAssisted" by (simp add: map_replicate_const)
    finally show ?thesis .
  qed
  have geo: "map (\<lambda>b. (label b, x_min b, y_min b, width b, height b)) ?col
           = map (\<lambda>r. (strOf (r_label r), numOf (r_x_min r), numOf (r_y_min r),
                        numOf (r_width r), numOf (r_height r))) rs"
  proof -
    have "map (\<lambda>b. (label b, x_min b, y_min b, width b, height b)) ?col
          = map (\<lambda>b. (label b, x_min b, y_min b, width b, height b)) ?new"
      by (rule withColors_map) simp
    also have "\<dots> = map2 (\<lambda>i r. (strOf (r_label r), numOf (r_x_min r), numOf (r_y_min r),
                        numOf (r_width r), numOf (r_height r))) [0 ..< length rs] rs"
      by (simp add: assistedBox_def split_beta)
    also have "\<dots> = map (\<lambda>r. (strOf (r_label r), numOf (r_x_min r), numOf (r_y_min r),
                        numOf (r_width r), numOf (r_height r))) rs"
      by (rule map2_snd_fun) simp
    finally show ?thesis .
  qed
  have fresh: "distinct (map box_id (boxes s)) \<and> distinct (map uuids [0 ..< length rs]) \<and>
          set (map uuids [0 ..< length rs]) \<inter> set (map box_id (boxes s)) = {} \<longrightarrow>
          distinct (map box_id (boxes s @ ?col))"
    using ids by (simp only: map_append distinct_append) blast
  show ?thesis
    unfolding eq using len ids src geo fresh by simp
qed

theorem assist_merge_appends_witness:
  "trim (assistPrompt assistEditor) \<noteq> [] \<and> list_all wellFormed exampleResponse
   \<and> map source (boxes assistEditor) = [HumanAdded]
   \<and> take 1 (boxes (assistInEditor [''red''] True exampleUuids
                       (Entries (map RObj exampleResponse)) assistEditor)) = boxes assistEditor
   \<and> length (boxes (assistInEditor [''red''] True exampleUuids
                       (Entries (map RObj exampleResponse)) assistEditor)) = 3
   \<and> map box_id (drop 1 (boxes (assistInEditor [''red''] True exampleUuids
                       (Entries (map RObj exampleResponse)) assistEditor))) = [''u'', ''uu'']
   \<and> map source (drop 1 (boxes (assistInEditor [''red''] True exampleUuids
                       (Entries (map RObj exampleResponse)) assistEditor)))
       = [GeminiAssisted, GeminiAssisted]
   \<and> map (\<lambda>b. (label b, x_min b, y_min b, width b, height b))
        (drop 1 (boxes (assistInEditor [''red''] True exampleUuids
                       (Entries (map RObj exampleResponse)) assistEditor)))
       = [(''object'', 0.1, 0.1, 0.2, 0.2), (''cat'', 0.5, 0.4, 0.3, 0.2)]
   \<and> map (\<lambda>b. (label b, x_min b, y_min b, width b, height b)) (boxes assistEditor)
       = [(''object'', 0.1, 0.1, 0.2, 0.2)]"
proof -
  have p: "trim (assistPrompt assistEditor) \<noteq> []"
    by (simp add: assistEditor_def exampleEditor_def trim_def isWhiteSpace_def)
  have w: "\<forall>r\<in>set exampleResponse. wellFormed r"
    by (simp add: exampleResponse_def wellFormed_def)
  have l: "length (boxes assistEditor) = 1" "length exampleResponse = 2"
    by (simp_all add: assistEditor_def exampleEditor_def exampleResponse_def)
  have e: "map source (boxes assistEditor) = [HumanAdded]"
      "map (\<lambda>b. (label b, x_min b, y_min b, width b, height b)) (boxes assistEditor)
       = [(''object'', 0.1, 0.1, 0.2, 0.2)]"
    by (simp_all add: assistEditor_def exampleEditor_def exampleBox_def)
  have u: "map exampleUuids [0 ..< 2] = [''u'', ''uu'']"
    by code_simp
  have r: "replicate 2 GeminiAssisted = [GeminiAssisted, GeminiAssisted]"
    by code_simp
  have g: "map (\<lambda>r. (strOf (r_label r), numOf (r_x_min r), numOf (r_y_min r),
                        numOf (r_width r), numOf (r_height r))) exampleResponse
           = [(''object'', 0.1, 0.1, 0.2, 0.2), (''cat'', 0.5, 0.4, 0.3, 0.2)]"
    by (simp add: exampleResponse_def strOf_def numOf_def)
  note inst = assist_merge_appends [OF p w, of "[''red'']" exampleUuids, unfolded l u r g]
  show ?thesis
    using p w e inst by (simp add: list_all_iff)
qed

lemma handleGeminiAssistRequest_rejected:
  "boxes (handleGeminiAssistRequest pal (Inl err) s) = boxes s \<and>
   labelColors (handleGeminiAssistRequest pal (Inl err) s) = labelColors s \<and>
   (\<exists>e. assistError (handleGeminiAssistRequest pal (Inl err) s) = Some e \<and> e \<noteq> [])"
  by (cases err) (simp_all add: handleGeminiAssistRequest_def)

text \<open>
  Claim C6. When the assist call fails (no client because no API key is set, the file
  read or the request rejected, a response that is not JSON, a \<open>null\<close> entry), the
  service rejects with a message; the editor's boxes and label colours after the request
  are those before it, and \<open>assistError\<close> holds a non-empty message. The same holds for
  any rejection of \<open>onGeminiAssist\<close>.
\<close>

theorem failed_assist_leaves_boxes:
  "(generateAssistedAnnotations aiReady uuids remote = Inl m \<longrightarrow>
      boxes (assistInEditor pal aiReady uuids remote s) = boxes s \<and>
      labelColors (assistInEditor pal aiReady uuids remote s) = labelColors s \<and>
      (\<exists>e. assistError (assistInEditor pal aiReady uuids remote s) = Some e \<and> e \<noteq> []))
   \<and> (\<not> aiReady \<or> remote = Rejected thrown \<or> remote = InvalidJson responseText \<or>
        remote = Entries (map RObj rs @ RNull # es) \<longrightarrow>
      (\<exists>m. generateAssistedAnnotations aiReady uuids remote = Inl m))
   \<and> boxes (handleGeminiAssistRequest pal (Inl err) s) = boxes s
   \<and> (\<exists>e. assistError (handleGeminiAssistRequest pal (Inl err) s) = Some e \<and> e \<noteq> [])"
proof -
  have a: "boxes (assistInEditor pal aiReady uuids remote s) = boxes s \<and>
      labelColors (assistInEditor pal aiReady uuids remote s) = labelColors s \<and>
      (\<exists>e. assistError (assistInEditor pal aiReady uuids remote s) = Some e \<and> e \<noteq> [])"
    if "generateAssistedAnnotations aiReady uuids remote = Inl m"
  proof -
    have "assistInEditor pal aiReady uuids remote s
             = handleGeminiAssistRequest pal (Inl (ErrorObj m)) s"
      using that by (simp add: assistInEditor_def)
    then show ?thesis
      using handleGeminiAssistRequest_rejected [of pal "ErrorObj m" s] by simp
  qed
  have n: "validateEntries uuids k (map RObj rs @ RNull # es) = Inl (ErrorObj nullEntryMessage)" for k
    by (induction rs arbitrary: k) simp_all
  have b: "\<exists>m. generateAssistedAnnotations aiReady uuids remote = Inl m"
    if "\<not> aiReady \<or> remote = Rejected thrown \<or> remote = InvalidJson responseText \<or>
        remote = Entries (map RObj rs @ RNull # es)"
    using that n [of 0] by (auto simp: generateAssistedAnnotations_def)
  show ?thesis
    using a b handleGeminiAssistRequest_rejected [of pal err s] by blast
qed

theorem failed_assist_leaves_boxes_witness:
  "generateAssistedAnnotations True exampleUuids (Rejected (ErrorObj ''Quota exceeded for today''))
     = Inl ''Gemini API quota exceeded. Please try again later.''
   \<and> boxes (assistInEditor [''red''] True exampleUuids
              (Rejected (ErrorObj ''Quota exceeded for today'')) assistEditor) = boxes assistEditor
   \<and> assistError (assistInEditor [''red''] True exampleUuids
              (Rejected (ErrorObj ''Quota exceeded for today'')) assistEditor)
       = Some ''Gemini API quota exceeded. Please try again later.''
   \<and> (\<exists>m. generateAssistedAnnotations True exampleUuids
              (Entries (map RObj exampleResponse @ RNull # [])) = Inl m)"
proof -
  have g: "generateAssistedAnnotations True exampleUuids (Rejected (ErrorObj ''Quota exceeded for today''))
     = Inl ''Gemini API quota exceeded. Please try again later.''"
    by (simp add: generateAssistedAnnotations_def assistFailureMessage_def)
  note inst = failed_assist_leaves_boxes [of True exampleUuids
      "Rejected (ErrorObj ''Quota exceeded for today'')"
      "''Gemini API quota exceeded. Please try again later.''" "[''red'']" assistEditor]
  have b: "boxes (assistInEditor [''red''] True exampleUuids
              (Rejected (ErrorObj ''Quota exceeded for today'')) assistEditor) = boxes assistEditor"
    using conjunct1 [OF inst] g by simp
  have a: "assistError (assistInEditor [''red''] True exampleUuids
              (Rejected (ErrorObj ''Quota exceeded for today'')) assistEditor)
       = Some ''Gemini API quota exceeded. Please try again later.''"
    using g by (simp add: assistInEditor_def handleGeminiAssistRequest_def assistEditor_def
        exampleEditor_def trim_def isWhiteSpace_def)
  have n: "\<exists>m. generateAssistedAnnotations True exampleUuids
              (Entries (map RObj exampleResponse @ RNull # [])) = Inl m"
    using conjunct1 [OF conjunct2 [OF failed_assist_leaves_boxes
        [of True exampleUuids "Entries (map RObj exampleResponse @ RNull # [])" _ _ _ _ _
            exampleResponse "[]"]]]
    by simp
  show ?thesis using g b a n by (intro conjI)
qed

end
